theory Spec2Isabelle
  imports Complex_Main "HOL-Library.Word"
begin

section \<open>nss-tlsd: the per-connection query pipeline of \<^verbatim>\<open>src/nss-tlsd.c\<close>\<close>

text \<open>
  The daemon is a chain of four GLib callbacks, each run once per connection:
  \<^verbatim>\<open>on_incoming\<close> (accept, start reading the request), \<^verbatim>\<open>on_req\<close> (request read,
  start the HTTPS GET), \<^verbatim>\<open>on_res\<close> (resolver answered, scan the JSON answers with
  \<^verbatim>\<open>on_answer\<close>, start writing the response) and \<^verbatim>\<open>on_done\<close> (response written).
  Every callback is embedded as a function from the \<^verbatim>\<open>struct nss_tls_query\<close> it is
  handed and the result of the asynchronous operation it finishes, to the list of
  operations it performs and the query structure it leaves (\<open>None\<close> once it has freed
  the structure). Which callback runs next is decided by the operations started, not by
  that value. Log calls (\<^verbatim>\<open>g_debug\<close>, \<^verbatim>\<open>g_warning\<close>) are left out; they read the state only.
\<close>

subsection \<open>Data\<close>

type_synonym byte = "8 word"

text \<open>A \<^verbatim>\<open>GSocketConnection *\<close>: the identity of the connection object.\<close>

type_synonym GSocketConnection = nat

text \<open>
  Modelled from the spec: \<^verbatim>\<open>struct nss_tls_req\<close> is declared in \<^verbatim>\<open>nss-tls.h\<close>, which is
  not among the sources. The code reads its members \<^verbatim>\<open>af\<close> (an \<^verbatim>\<open>int\<close>) and \<^verbatim>\<open>name\<close>
  (a character buffer of fixed length that holds a NUL-terminated host name).
  \<open>name\<close> is the whole buffer, NUL bytes included.
\<close>

record nss_tls_req =
  af :: int
  name :: string

text \<open>
  Modelled from the spec: \<^verbatim>\<open>struct nss_tls_res\<close> is declared in \<^verbatim>\<open>nss-tls.h\<close> as well. It
  holds one member, \<^verbatim>\<open>addr\<close>, a buffer as large as the larger of an IPv4 and an IPv6
  address: 16 bytes.
\<close>

record nss_tls_res =
  addr :: "byte list"

text \<open>
  Modelled from the spec: \<^verbatim>\<open>sizeof (struct nss_tls_res)\<close>, the size of an IPv6 address.
\<close>

definition sizeof_res :: nat where
  "sizeof_res = 16"

record nss_tls_query =
  req :: nss_tls_req
  res :: nss_tls_res
  type :: int
  connection :: GSocketConnection
  ok :: bool

text \<open>
  The macros of \<^verbatim>\<open>nss-tls.h\<close> and the size of the request structure are parameters
  of the model.
\<close>

record nss_tls_h =
  NSS_TLS_RESOLVER :: string
  NSS_TLS_TIMEOUT :: nat
  sizeof_req :: nat
  sizeof_name :: nat

text \<open>The address families of \<^verbatim>\<open><sys/socket.h>\<close> on Linux.\<close>

definition AF_INET :: int where
  "AF_INET = 2"

definition AF_INET6 :: int where
  "AF_INET6 = 10"

subsection \<open>The JSON document, as json-glib hands it to the callbacks\<close>

text \<open>
  A \<^verbatim>\<open>JsonNode\<close>. An object is the list of its members; \<^verbatim>\<open>json_object_get_member\<close>
  finds a member by name. The accessors below follow the json-glib reference: asked
  for the wrong kind of node they return \<^verbatim>\<open>NULL\<close> (here \<open>None\<close>) or 0. A \<^verbatim>\<open>gint64\<close> is
  an \<open>int\<close>: the code only compares it.
\<close>

datatype json =
    JNull
  | JBool bool
  | JInt int
  | JDouble real
  | JString string
  | JArray "json list"
  | JObject "(string \<times> json) list"

text \<open>\<^verbatim>\<open>json_node_get_object\<close>; the node itself may be \<^verbatim>\<open>NULL\<close> (an empty document).\<close>

fun json_node_get_object :: "json option \<Rightarrow> (string \<times> json) list option" where
  "json_node_get_object (Some (JObject members)) = Some members"
| "json_node_get_object _ = None"

text \<open>\<^verbatim>\<open>json_object_get_member\<close>; on a \<^verbatim>\<open>NULL\<close> object it returns \<^verbatim>\<open>NULL\<close>.\<close>

fun json_object_get_member :: "(string \<times> json) list option \<Rightarrow> string \<Rightarrow> json option" where
  "json_object_get_member None member_name = None"
| "json_object_get_member (Some members) member_name = map_of members member_name"

text \<open>
  \<^verbatim>\<open>json_node_get_int\<close>: the integer held; the integer component of a double (the C
  conversion truncates towards zero); 1 or 0 for a boolean; 0 for anything else.
\<close>

fun json_node_get_int :: "json \<Rightarrow> int" where
  "json_node_get_int (JInt i) = i"
| "json_node_get_int (JDouble d) = (if d < 0 then \<lceil>d\<rceil> else \<lfloor>d\<rfloor>)"
| "json_node_get_int (JBool b) = (if b then 1 else 0)"
| "json_node_get_int _ = 0"

text \<open>\<^verbatim>\<open>json_node_get_string\<close>: the string held, \<^verbatim>\<open>NULL\<close> for any other node.\<close>

fun json_node_get_string :: "json \<Rightarrow> string option" where
  "json_node_get_string (JString s) = Some s"
| "json_node_get_string _ = None"

text \<open>
  \<^verbatim>\<open>json_object_get_array_member\<close>: the array held by the member, \<^verbatim>\<open>NULL\<close> when the
  object is \<^verbatim>\<open>NULL\<close>, has no such member, or the member is not an array.
\<close>

fun json_object_get_array_member :: "(string \<times> json) list option \<Rightarrow> string \<Rightarrow> json list option" where
  "json_object_get_array_member obj member_name =
     (case json_object_get_member obj member_name of
        Some (JArray elements) \<Rightarrow> Some elements
      | _ \<Rightarrow> None)"

text \<open>
  \<^verbatim>\<open>json_array_foreach_element\<close>: calls the function on every element in array order,
  with the element's index and the user data.
\<close>

fun foreach_element_from :: "nat \<Rightarrow> json list \<Rightarrow> (nat \<Rightarrow> json \<Rightarrow> 'a \<Rightarrow> 'a) \<Rightarrow> 'a \<Rightarrow> 'a" where
  "foreach_element_from index [] func data = data"
| "foreach_element_from index (element_node # rest) func data =
     foreach_element_from (Suc index) rest func (func index element_node data)"

definition json_array_foreach_element :: "json list \<Rightarrow> (nat \<Rightarrow> json \<Rightarrow> 'a \<Rightarrow> 'a) \<Rightarrow> 'a \<Rightarrow> 'a" where
  "json_array_foreach_element array func data = foreach_element_from 0 array func data"

subsection \<open>\<^verbatim>\<open>inet_pton\<close>\<close>

text \<open>
  \<^verbatim>\<open>inet_pton (af, src, dst)\<close> belongs to the C library and is a parameter of the model:
  a function from the family and the text to the value returned and the bytes stored
  at the start of \<^verbatim>\<open>dst\<close>. \<open>store\<close> puts these bytes into the buffer.
\<close>

type_synonym inet_pton_t = "int \<Rightarrow> string \<Rightarrow> int \<times> byte list"

definition store :: "byte list \<Rightarrow> byte list \<Rightarrow> byte list" where
  "store bytes dst = bytes @ drop (length bytes) dst"

subsection \<open>\<^verbatim>\<open>on_answer\<close>\<close>

definition on_answer :: "inet_pton_t \<Rightarrow> nat \<Rightarrow> json \<Rightarrow> nss_tls_query \<Rightarrow> nss_tls_query" where
  "on_answer inet_pton index element_node query =
     (let answero = json_node_get_object (Some element_node) in
      case json_object_get_member answero ''type'' of
        None \<Rightarrow> query
      | Some type_node \<Rightarrow>
          if json_node_get_int type_node \<noteq> type query then query
          else
            (case json_object_get_member answero ''data'' of
               None \<Rightarrow> query
             | Some data \<Rightarrow>
                 (case json_node_get_string data of
                    None \<Rightarrow> query
                  | Some s \<Rightarrow>
                      (let (ret, bytes) = inet_pton (af (req query)) s;
                           query' = query\<lparr>res := (res query)\<lparr>addr := store bytes (addr (res query))\<rparr>\<rparr>
                       in if ret \<noteq> 0 then query'\<lparr>ok := True\<rparr> else query'))))"

subsection \<open>Operations on the outside world\<close>

text \<open>
  What a callback does to the connection, to the resolver and to the query's memory, in
  program order. \<open>Object_unref\<close> and \<open>Free_query\<close> are \<^verbatim>\<open>g_object_unref (query->connection)\<close>
  and \<^verbatim>\<open>g_free (query)\<close>. The objects a callback creates for itself (the parser, the
  error, the URL, the libsoup session and message, the response stream) are recorded
  apart, in \<open>on_req_objects\<close> and \<open>on_res_objects\<close> below.
\<close>

datatype operation =
    Socket_set_timeout GSocketConnection nat
  | Object_ref GSocketConnection
  | Read_all_async GSocketConnection nat
  | Soup_send_async string string
  | Write_all_async GSocketConnection "byte list"
  | Object_unref GSocketConnection
  | Free_query

type_synonym outcome = "operation list \<times> nss_tls_query option"

subsection \<open>\<^verbatim>\<open>on_done\<close>\<close>

text \<open>\<open>finished\<close> is the value of \<^verbatim>\<open>g_output_stream_write_all_finish\<close>; it selects the log line only.\<close>

definition on_done :: "nss_tls_query \<Rightarrow> bool \<Rightarrow> outcome" where
  "on_done query finished = ([Object_unref (connection query), Free_query], None)"

subsection \<open>\<^verbatim>\<open>on_res\<close>\<close>

text \<open>
  What the resolver's answer looks like from \<^verbatim>\<open>on_res\<close>.
  \<^verbatim>\<open>soup_session_send_finish\<close> returns \<^verbatim>\<open>NULL\<close> when no HTTP response was received
  (\<open>Send_error\<close>); otherwise it returns the stream of the response's body, whatever the
  status code of the response (libsoup reference: success means only that an HTTP
  response was received and understood, not that its status is 2xx). The status code is a
  field of the \<^verbatim>\<open>SoupMessage\<close>, which \<^verbatim>\<open>on_res\<close> is not given.
  \<^verbatim>\<open>json_parser_load_from_stream\<close> fails on a body that cannot be read or is not JSON
  (\<open>Load_error\<close>); otherwise \<^verbatim>\<open>json_parser_get_root\<close> is the root node, \<^verbatim>\<open>NULL\<close> for an
  empty document.
\<close>

datatype body = Load_error | Loaded "json option"

datatype send_result = Send_error | Send_stream (status_code: nat) (stream: body)

text \<open>The code after the label \<^verbatim>\<open>fail\<close>.\<close>

definition on_res_fail :: "nss_tls_query \<Rightarrow> outcome" where
  "on_res_fail query =
     (if ok query then ([], Some query)
      else ([Object_unref (connection query), Free_query], None))"

definition on_res :: "inet_pton_t \<Rightarrow> nss_tls_query \<Rightarrow> send_result \<Rightarrow> outcome" where
  "on_res inet_pton query0 result =
     (let query = query0\<lparr>ok := False\<rparr> in
      case result of
        Send_error \<Rightarrow> on_res_fail query
      | Send_stream status in_stream \<Rightarrow>
          (case in_stream of
             Load_error \<Rightarrow> on_res_fail query
           | Loaded root_node \<Rightarrow>
               (case json_node_get_object root_node of
                  None \<Rightarrow> on_res_fail query
                | Some rooto \<Rightarrow>
                    (case json_object_get_array_member (Some rooto) ''Answer'' of
                       None \<Rightarrow> on_res_fail query
                     | Some answers \<Rightarrow>
                         (let query' = json_array_foreach_element answers (on_answer inet_pton) query;
                              ops = (if ok query'
                                     then [Write_all_async (connection query') (addr (res query'))]
                                     else [])
                          in (ops @ fst (on_res_fail query'), snd (on_res_fail query')))))))"

subsection \<open>\<^verbatim>\<open>on_req\<close>\<close>

text \<open>
  \<^verbatim>\<open>%s\<close> of \<^verbatim>\<open>g_strdup_printf\<close> copies the buffer up to its first NUL byte. (A buffer
  with no NUL byte is undefined behaviour in C; the model stops at the buffer's end.)
\<close>

definition c_str :: "string \<Rightarrow> string" where
  "c_str buffer = takeWhile (\<lambda>c. c \<noteq> CHR 0x00) buffer"

definition on_req_fail :: "nss_tls_query \<Rightarrow> outcome" where
  "on_req_fail query = ([Object_unref (connection query), Free_query], None)"

text \<open>
  \<open>finished\<close> and \<open>len\<close> are the value and the byte count of
  \<^verbatim>\<open>g_input_stream_read_all_finish\<close>; the bytes read are in \<open>req query\<close> already.
\<close>

definition on_req :: "nss_tls_h \<Rightarrow> nss_tls_query \<Rightarrow> bool \<Rightarrow> nat \<Rightarrow> outcome" where
  "on_req h query finished len =
     (if \<not> finished then on_req_fail query
      else if len \<noteq> sizeof_req h then on_req_fail query
      else if af (req query) = AF_INET then
        ([Soup_send_async ''GET''
            (''https://'' @ NSS_TLS_RESOLVER h @ ''/dns-query?ct=application/dns-json&name=''
               @ c_str (name (req query)) @ ''&type=A'')],
         Some (query\<lparr>type := 1\<rparr>))
      else if af (req query) = AF_INET6 then
        ([Soup_send_async ''GET''
            (''https://'' @ NSS_TLS_RESOLVER h @ ''/dns-query?ct=application/dns-json&name=''
               @ c_str (name (req query)) @ ''&type=AAAA'')],
         Some (query\<lparr>type := 28\<rparr>))
      else on_req_fail query)"

subsection \<open>\<^verbatim>\<open>on_incoming\<close>\<close>

text \<open>\<^verbatim>\<open>g_new0\<close>: every byte of the new query is zero.\<close>

definition g_new0_query :: "nss_tls_h \<Rightarrow> nss_tls_query" where
  "g_new0_query h =
     \<lparr>req = \<lparr>af = 0, name = replicate (sizeof_name h) (CHR 0x00)\<rparr>,
      res = \<lparr>addr = replicate sizeof_res 0\<rparr>,
      type = 0, connection = 0, ok = False\<rparr>"

definition on_incoming :: "nss_tls_h \<Rightarrow> GSocketConnection \<Rightarrow> operation list \<times> nss_tls_query" where
  "on_incoming h conn =
     ([Socket_set_timeout conn (NSS_TLS_TIMEOUT h),
       Object_ref conn,
       Read_all_async conn (sizeof_req h)],
      (g_new0_query h)\<lparr>connection := conn\<rparr>)"

subsection \<open>One session\<close>

text \<open>
  What the peer does on the connection, as the read of \<^verbatim>\<open>on_incoming\<close> meets it: the
  number of bytes that arrive, how the stream ends after them (the peer closes, or an
  error such as the idle timeout), and what the bytes read leave in \<^verbatim>\<open>query->req\<close>.
\<close>

datatype stream_end = End_of_stream | Io_error

record incoming =
  arrived :: nat
  ending :: stream_end
  buffer :: nss_tls_req

text \<open>
  \<^verbatim>\<open>g_input_stream_read_all_async\<close> and \<^verbatim>\<open>_finish\<close> (GIO reference): the read asks for
  \<open>count\<close> bytes and takes no more; it succeeds when \<open>count\<close> bytes were read or the end
  of the stream was reached, and reports the number of bytes read.
\<close>

definition g_input_stream_read_all :: "nat \<Rightarrow> incoming \<Rightarrow> bool \<times> nat" where
  "g_input_stream_read_all count inc =
     (if count \<le> arrived inc then (True, count)
      else (ending inc = End_of_stream, arrived inc))"

text \<open>
  The main loop runs the callback registered with an asynchronous operation when the
  operation completes, after the callback that started it has returned: \<^verbatim>\<open>on_req\<close> for
  the read (source line 281), \<^verbatim>\<open>on_res\<close> for the HTTPS request (line 249), \<^verbatim>\<open>on_done\<close>
  for the write (line 175). Each gets the pointer to the query as its user data, whether
  or not the structure was freed in between.

  \<open>left_in_memory\<close> is what the next callback finds behind that pointer: the structure
  as the last callback left it, or its stale contents once freed (reading them is
  undefined behaviour in C; \<open>released_exactly_once\<close> shows that no callback runs after
  the free).
\<close>

definition left_in_memory :: "nss_tls_query \<Rightarrow> nss_tls_query option \<Rightarrow> nss_tls_query" where
  "left_in_memory query r = (case r of Some query' \<Rightarrow> query' | None \<Rightarrow> query)"

text \<open>What follows an operation: nothing, unless it is a write; then \<^verbatim>\<open>on_done\<close> runs.\<close>

definition after_write :: "nss_tls_query \<Rightarrow> bool \<Rightarrow> operation \<Rightarrow> operation list" where
  "after_write query wr op =
     (case op of
        Write_all_async c bytes \<Rightarrow> fst (on_done query wr)
      | _ \<Rightarrow> [])"

text \<open>
  What follows an operation: nothing, unless it is an HTTPS request; then \<^verbatim>\<open>on_res\<close> runs
  with the resolver's result, followed by what follows each operation of \<^verbatim>\<open>on_res\<close>.
\<close>

definition after_send ::
  "inet_pton_t \<Rightarrow> nss_tls_query \<Rightarrow> send_result \<Rightarrow> bool \<Rightarrow> operation \<Rightarrow> operation list" where
  "after_send inet_pton query sr wr op =
     (case op of
        Soup_send_async method url \<Rightarrow>
          (let (ops, r) = on_res inet_pton query sr
           in ops @ concat (map (after_write (left_in_memory query r) wr) ops))
      | _ \<Rightarrow> [])"

text \<open>
  What follows an operation: nothing, unless it is a read; then the bytes read are in
  \<^verbatim>\<open>query->req\<close> and \<^verbatim>\<open>on_req\<close> runs with the result of the read, followed by what follows
  each operation of \<^verbatim>\<open>on_req\<close>.
\<close>

definition after_read ::
  "nss_tls_h \<Rightarrow> inet_pton_t \<Rightarrow> nss_tls_query \<Rightarrow> incoming \<Rightarrow> send_result \<Rightarrow> bool \<Rightarrow>
   operation \<Rightarrow> operation list" where
  "after_read h inet_pton query inc sr wr op =
     (case op of
        Read_all_async c count \<Rightarrow>
          (let (finished, len) = g_input_stream_read_all count inc;
               query1 = query\<lparr>req := buffer inc\<rparr>;
               (ops, r) = on_req h query1 finished len
           in ops @ concat (map (after_send inet_pton (left_in_memory query1 r) sr wr) ops))
      | _ \<Rightarrow> [])"

text \<open>
  A session: \<^verbatim>\<open>on_incoming\<close>, then what follows each of its operations, given what the
  peer sends, what the resolver answers and how the write ends. The value is every
  operation performed, in order.
\<close>

definition session ::
  "nss_tls_h \<Rightarrow> inet_pton_t \<Rightarrow> GSocketConnection \<Rightarrow> incoming \<Rightarrow> send_result \<Rightarrow> bool \<Rightarrow> operation list" where
  "session h inet_pton conn inc sr wr =
     (let (ops, query) = on_incoming h conn
      in ops @ concat (map (after_read h inet_pton query inc sr wr) ops))"

subsection \<open>The objects a callback creates\<close>

text \<open>
  Besides the query and the connection, the callbacks own objects of their own: the
  \<^verbatim>\<open>GError\<close> a failing call sets, the URL string, the \<^verbatim>\<open>SoupSession\<close> and \<^verbatim>\<open>SoupMessage\<close>
  of \<^verbatim>\<open>on_req\<close>, the stream that \<^verbatim>\<open>soup_session_send_finish\<close> hands to \<^verbatim>\<open>on_res\<close> and the
  \<^verbatim>\<open>JsonParser\<close>. The JSON nodes are borrowed from the parser. \<^verbatim>\<open>on_incoming\<close> and
  \<^verbatim>\<open>on_done\<close> own no object of their own.
\<close>

datatype local_object =
    G_error
  | Url
  | Soup_session
  | Soup_message
  | Response_stream
  | Json_parser

datatype memory_event = Acquired local_object | Released local_object

text \<open>
  \<^verbatim>\<open>on_req\<close>: \<^verbatim>\<open>g_error_free\<close> after a failed read (lines 211-214); \<^verbatim>\<open>g_strdup_printf\<close>,
  \<^verbatim>\<open>soup_session_new\<close>, \<^verbatim>\<open>soup_message_new\<close> and \<^verbatim>\<open>g_free (url)\<close> (lines 231-250).
\<close>

definition on_req_objects :: "nss_tls_h \<Rightarrow> nss_tls_query \<Rightarrow> bool \<Rightarrow> nat \<Rightarrow> memory_event list" where
  "on_req_objects h query finished len =
     (if \<not> finished then [Acquired G_error, Released G_error]
      else if len \<noteq> sizeof_req h then []
      else if af (req query) = AF_INET \<or> af (req query) = AF_INET6 then
        [Acquired Url, Acquired Soup_session, Acquired Soup_message, Released Url]
      else [])"

text \<open>
  \<^verbatim>\<open>on_res\<close>: the stream of \<^verbatim>\<open>soup_session_send_finish\<close> or its error (line 127),
  \<^verbatim>\<open>json_parser_new\<close> (line 141), the error of a failed load (line 142),
  \<^verbatim>\<open>g_object_unref (j)\<close> (line 181) and \<^verbatim>\<open>g_error_free\<close> (line 187).
\<close>

definition on_res_objects :: "send_result \<Rightarrow> memory_event list" where
  "on_res_objects result =
     (case result of
        Send_error \<Rightarrow> [Acquired G_error, Released G_error]
      | Send_stream status in_stream \<Rightarrow>
          Acquired Response_stream # Acquired Json_parser #
          (case in_stream of
             Load_error \<Rightarrow> [Acquired G_error, Released Json_parser, Released G_error]
           | Loaded root_node \<Rightarrow> [Released Json_parser]))"

text \<open>The objects of a session: those of the callbacks that run, in order.\<close>

definition objects_after_send :: "send_result \<Rightarrow> operation \<Rightarrow> memory_event list" where
  "objects_after_send sr op =
     (case op of
        Soup_send_async method url \<Rightarrow> on_res_objects sr
      | _ \<Rightarrow> [])"

definition objects_after_read ::
  "nss_tls_h \<Rightarrow> nss_tls_query \<Rightarrow> incoming \<Rightarrow> send_result \<Rightarrow> operation \<Rightarrow> memory_event list" where
  "objects_after_read h query inc sr op =
     (case op of
        Read_all_async c count \<Rightarrow>
          (let (finished, len) = g_input_stream_read_all count inc;
               query1 = query\<lparr>req := buffer inc\<rparr>
           in on_req_objects h query1 finished len @
              concat (map (objects_after_send sr) (fst (on_req h query1 finished len))))
      | _ \<Rightarrow> [])"

definition session_objects ::
  "nss_tls_h \<Rightarrow> GSocketConnection \<Rightarrow> incoming \<Rightarrow> send_result \<Rightarrow> memory_event list" where
  "session_objects h conn inc sr =
     (let (ops, query) = on_incoming h conn
      in concat (map (objects_after_read h query inc sr) ops))"

subsection \<open>The vocabulary of the specification\<close>

text \<open>
  An answer record as the specification reads it: its declared type (none when the
  element is not an object or has no \<^verbatim>\<open>type\<close> member), its \<^verbatim>\<open>data\<close> member, and the text
  of that member when it is a string.
\<close>

definition record_type :: "json \<Rightarrow> int option" where
  "record_type node =
     map_option json_node_get_int
       (json_object_get_member (json_node_get_object (Some node)) ''type'')"

definition record_data :: "json \<Rightarrow> json option" where
  "record_data node = json_object_get_member (json_node_get_object (Some node)) ''data''"

definition record_text :: "json \<Rightarrow> string option" where
  "record_text node = (case record_data node of Some (JString s) \<Rightarrow> Some s | _ \<Rightarrow> None)"

text \<open>
  A record of the wanted type whose data parses as an address of the family
  (\<^verbatim>\<open>inet_pton\<close> returns 1), and the address it parses to.
\<close>

definition valid_record :: "inet_pton_t \<Rightarrow> int \<Rightarrow> int \<Rightarrow> json \<Rightarrow> bool" where
  "valid_record P family wanted node \<longleftrightarrow>
     record_type node = Some wanted \<and>
     (case record_text node of Some s \<Rightarrow> fst (P family s) = 1 | None \<Rightarrow> False)"

definition record_address :: "inet_pton_t \<Rightarrow> int \<Rightarrow> json \<Rightarrow> byte list" where
  "record_address P family node =
     (case record_text node of Some s \<Rightarrow> snd (P family s) | None \<Rightarrow> [])"

definition address_length :: "int \<Rightarrow> nat" where
  "address_length family = (if family = AF_INET then 4 else 16)"

text \<open>
  What the theorems assume of \<^verbatim>\<open>inet_pton\<close> for the two families (the manual page, and
  glibc for the untouched buffer): either the text is an address, the value is 1 and
  the 4 or 16 bytes of the address are stored; or the value is 0 and nothing is stored.
\<close>

definition inet_pton_spec :: "inet_pton_t \<Rightarrow> bool" where
  "inet_pton_spec P \<longleftrightarrow>
     (\<forall>family s. family = AF_INET \<or> family = AF_INET6 \<longrightarrow>
        P family s = (0, []) \<or>
        (fst (P family s) = 1 \<and> length (snd (P family s)) = address_length family))"

text \<open>
  The selection rule of the specification, last match wins: the query after the scan
  has the address of the last valid record at the start of its buffer and \<open>ok\<close> set, or
  is unchanged when no record is valid.
\<close>

definition selected :: "inet_pton_t \<Rightarrow> nss_tls_query \<Rightarrow> json list \<Rightarrow> nss_tls_query" where
  "selected P q answers =
     (let valid = filter (valid_record P (af (req q)) (type q)) answers in
      if valid = [] then q
      else q\<lparr>res := (res q)\<lparr>addr := store (record_address P (af (req q)) (last valid)) (addr (res q))\<rparr>,
             ok := True\<rparr>)"

text \<open>
  The Answer Selector of the specification as \<^verbatim>\<open>on_res\<close> runs it: \<open>ok\<close> is cleared, the
  answers are scanned with \<^verbatim>\<open>on_answer\<close>, and \<open>ok\<close> tells whether the response buffer
  holds an address (\<open>None\<close> is the specification's NotFound).
\<close>

definition select_answer :: "inet_pton_t \<Rightarrow> nss_tls_query \<Rightarrow> json list \<Rightarrow> byte list option" where
  "select_answer P q answers =
     (let q' = json_array_foreach_element answers (on_answer P) (q\<lparr>ok := False\<rparr>)
      in if ok q' then Some (addr (res q')) else None)"

text \<open>
  The query builder of the specification: the two families, their DNS type codes and
  mnemonics, and the URL of the query.
\<close>

datatype family = IPv4 | IPv6

fun af_of :: "family \<Rightarrow> int" where
  "af_of IPv4 = AF_INET"
| "af_of IPv6 = AF_INET6"

fun dns_type_code :: "family \<Rightarrow> int" where
  "dns_type_code IPv4 = 1"
| "dns_type_code IPv6 = 28"

fun dns_mnemonic :: "family \<Rightarrow> string" where
  "dns_mnemonic IPv4 = ''A''"
| "dns_mnemonic IPv6 = ''AAAA''"

definition doh_url :: "string \<Rightarrow> string \<Rightarrow> family \<Rightarrow> string" where
  "doh_url resolver host f =
     ''https://'' @ resolver @ ''/dns-query'' @ ''?ct=application/dns-json'' @
     ''&name='' @ host @ ''&type='' @ dns_mnemonic f"


text \<open>
  Two names for the proofs: what \<^verbatim>\<open>on_incoming\<close> does, and the query \<^verbatim>\<open>on_req\<close> is
  handed after the read.
\<close>

definition session_start :: "nss_tls_h \<Rightarrow> GSocketConnection \<Rightarrow> operation list" where
  "session_start h conn =
     [Socket_set_timeout conn (NSS_TLS_TIMEOUT h), Object_ref conn, Read_all_async conn (sizeof_req h)]"

definition received :: "nss_tls_h \<Rightarrow> GSocketConnection \<Rightarrow> incoming \<Rightarrow> nss_tls_query" where
  "received h conn inc = (g_new0_query h)\<lparr>connection := conn, req := buffer inc\<rparr>"

subsection \<open>An example environment\<close>

text \<open>
  A stand-in for \<^verbatim>\<open>inet_pton\<close> that knows three addresses, a configuration with a
  request structure of 20 bytes, the query of an IPv4 request for \<^verbatim>\<open>example.com\<close> as
  \<^verbatim>\<open>on_req\<close> leaves it, a peer that sends this request and closes, and a resolver
  response with the given status and answers.
\<close>

definition example_inet_pton :: inet_pton_t where
  "example_inet_pton family s =
     (if family = AF_INET \<and> s = ''93.184.216.34'' then (1, [93, 184, 216, 34])
      else if family = AF_INET \<and> s = ''10.0.0.7'' then (1, [10, 0, 0, 7])
      else if family = AF_INET6 \<and> s = ''::1'' then (1, replicate 15 0 @ [1])
      else if family = AF_INET \<or> family = AF_INET6 then (0, [])
      else (- 1, []))"

definition example_h :: nss_tls_h where
  "example_h = \<lparr>NSS_TLS_RESOLVER = ''dns.example.net'', NSS_TLS_TIMEOUT = 5,
                sizeof_req = 20, sizeof_name = 16\<rparr>"

definition example_req :: nss_tls_req where
  "example_req = \<lparr>af = AF_INET, name = ''example.com'' @ replicate 5 (CHR 0x00)\<rparr>"

definition example_query :: nss_tls_query where
  "example_query = (g_new0_query example_h)\<lparr>connection := 7, req := example_req, type := 1\<rparr>"

definition example_record :: "int \<Rightarrow> json \<Rightarrow> json" where
  "example_record t d =
     JObject [(''name'', JString ''example.com.''), (''type'', JInt t), (''TTL'', JInt 300),
              (''data'', d)]"

definition example_incoming :: incoming where
  "example_incoming = \<lparr>arrived = 20, ending = End_of_stream, buffer = example_req\<rparr>"

definition example_response :: "nat \<Rightarrow> json list \<Rightarrow> send_result" where
  "example_response status answers =
     Send_stream status
       (Loaded (Some (JObject [(''Status'', JInt 0), (''Answer'', JArray answers)])))"

section \<open>Properties\<close>

subsection \<open>The scan\<close>

lemma on_answer_index: "on_answer P i node q = on_answer P 0 node q"
  by (simp add: on_answer_def)

lemma foreach_element_from_fold:
  "foreach_element_from i xs (on_answer P) q = fold (on_answer P 0) xs q"
proof (induction xs arbitrary: i q)
  case Nil
  show ?case by simp
next
  case (Cons x xs)
  show ?case
    using Cons.IH [of "Suc i"] on_answer_index [of P i x q] by simp
qed

lemma foreach_fold:
  "json_array_foreach_element xs (on_answer P) q = fold (on_answer P 0) xs q"
  by (simp add: json_array_foreach_element_def foreach_element_from_fold)

text \<open>\<^verbatim>\<open>on_answer\<close> in the vocabulary of the specification.\<close>

lemma on_answer_alt:
  "on_answer P i node q =
     (if record_type node = Some (type q) then
        (case record_text node of
           None \<Rightarrow> q
         | Some s \<Rightarrow>
             (if fst (P (af (req q)) s) \<noteq> 0
              then q\<lparr>res := (res q)\<lparr>addr := store (snd (P (af (req q)) s)) (addr (res q))\<rparr>, ok := True\<rparr>
              else q\<lparr>res := (res q)\<lparr>addr := store (snd (P (af (req q)) s)) (addr (res q))\<rparr>\<rparr>))
      else q)"
  by (auto simp: on_answer_def record_type_def record_text_def record_data_def Let_def
      split: option.splits json.splits prod.splits)

lemma on_answer_keeps:
  "connection (on_answer P i node q) = connection q"
  "type (on_answer P i node q) = type q"
  "req (on_answer P i node q) = req q"
  by (simp_all add: on_answer_alt split: option.splits)

lemma fold_on_answer_keeps:
  "connection (fold (on_answer P 0) xs q) = connection q \<and>
   type (fold (on_answer P 0) xs q) = type q \<and>
   req (fold (on_answer P 0) xs q) = req q"
  by (induction xs arbitrary: q) (simp_all add: on_answer_keeps)

lemma on_answer_valid:
  assumes "valid_record P (af (req q)) (type q) node"
  shows "on_answer P i node q =
           q\<lparr>res := (res q)\<lparr>addr := store (record_address P (af (req q)) node) (addr (res q))\<rparr>,
             ok := True\<rparr>"
  using assms
  by (auto simp: on_answer_alt valid_record_def record_address_def split: option.splits)

lemma store_Nil: "store [] dst = dst"
  by (simp add: store_def)

lemma store_store:
  "length b1 = length b2 \<Longrightarrow> store b2 (store b1 dst) = store b2 dst"
  by (simp add: store_def)

lemma take_store:
  "take (length bytes) (store bytes dst) = bytes"
  by (simp add: store_def)

lemma on_answer_not_valid:
  assumes "inet_pton_spec P" and "af (req q) = AF_INET \<or> af (req q) = AF_INET6"
    and "\<not> valid_record P (af (req q)) (type q) node"
  shows "on_answer P i node q = q"
proof (cases "record_type node = Some (type q)")
  case False
  then show ?thesis by (simp add: on_answer_alt)
next
  case True
  show ?thesis
  proof (cases "record_text node")
    case None
    then show ?thesis by (simp add: on_answer_alt)
  next
    case (Some s)
    have "P (af (req q)) s = (0, []) \<or> fst (P (af (req q)) s) = 1"
      using assms(1,2) unfolding inet_pton_spec_def by blast
    moreover have "fst (P (af (req q)) s) \<noteq> 1"
      using assms(3) True Some by (simp add: valid_record_def)
    ultimately have "P (af (req q)) s = (0, [])" by blast
    then show ?thesis using True Some by (simp add: on_answer_alt store_Nil)
  qed
qed

lemma valid_record_length:
  assumes "inet_pton_spec P" and "family = AF_INET \<or> family = AF_INET6"
    and "valid_record P family wanted node"
  shows "length (record_address P family node) = address_length family"
proof -
  from assms(3) obtain s where s: "record_text node = Some s" "fst (P family s) = 1"
    by (auto simp: valid_record_def split: option.splits)
  have "P family s = (0, []) \<or> (fst (P family s) = 1 \<and> length (snd (P family s)) = address_length family)"
    using assms(1,2) unfolding inet_pton_spec_def by blast
  with s show ?thesis by (auto simp: record_address_def)
qed

lemma selected_fields:
  "af (req (selected P q xs)) = af (req q)" "type (selected P q xs) = type q"
  "connection (selected P q xs) = connection q"
  by (simp_all add: selected_def Let_def)

text \<open>The scan of the code computes the selection of the specification.\<close>

lemma fold_on_answer:
  assumes "inet_pton_spec P" and "af (req q) = AF_INET \<or> af (req q) = AF_INET6"
  shows "fold (on_answer P 0) xs q = selected P q xs"
proof (induction xs rule: rev_induct)
  case Nil
  show ?case by (simp add: selected_def Let_def)
next
  case (snoc x xs)
  let ?V = "valid_record P (af (req q)) (type q)"
  let ?s = "selected P q xs"
  have step: "fold (on_answer P 0) (xs @ [x]) q = on_answer P 0 x ?s"
    using snoc.IH by simp
  show ?case
  proof (cases "?V x")
    case False
    then have "\<not> valid_record P (af (req ?s)) (type ?s) x"
      by (simp add: selected_fields)
    then have "on_answer P 0 x ?s = ?s"
      using on_answer_not_valid [OF assms(1), of ?s x 0] assms(2) by (simp add: selected_fields)
    moreover have "selected P q (xs @ [x]) = ?s"
      using False by (simp add: selected_def Let_def)
    ultimately show ?thesis using step by simp
  next
    case True
    then have v: "valid_record P (af (req ?s)) (type ?s) x"
      by (simp add: selected_fields)
    have len: "length (record_address P (af (req q)) x) = address_length (af (req q))"
      using valid_record_length [OF assms(1) assms(2) True] .
    have "on_answer P 0 x ?s =
            q\<lparr>res := (res q)\<lparr>addr := store (record_address P (af (req q)) x) (addr (res q))\<rparr>, ok := True\<rparr>"
    proof (cases "filter ?V xs")
      case Nil
      then show ?thesis
        using on_answer_valid [OF v, of 0] by (simp add: selected_def Let_def)
    next
      case (Cons y ys)
      then have ne: "filter ?V xs \<noteq> []" by simp
      then have "last (filter ?V xs) \<in> set (filter ?V xs)"
        by (rule last_in_set)
      then have "?V (last (filter ?V xs))" by simp
      then have "length (record_address P (af (req q)) (last (filter ?V xs))) = address_length (af (req q))"
        using valid_record_length [OF assms(1) assms(2)] by blast
      with len ne show ?thesis
        using on_answer_valid [OF v, of 0] by (simp add: selected_def Let_def store_store)
    qed
    moreover have "selected P q (xs @ [x]) =
            q\<lparr>res := (res q)\<lparr>addr := store (record_address P (af (req q)) x) (addr (res q))\<rparr>, ok := True\<rparr>"
      using True by (simp add: selected_def Let_def)
    ultimately show ?thesis using step by simp
  qed
qed

lemma select_answer_selected:
  assumes "inet_pton_spec P" and "af (req q) = AF_INET \<or> af (req q) = AF_INET6"
  shows "select_answer P q answers =
           (if filter (valid_record P (af (req q)) (type q)) answers = [] then None
            else Some (store (record_address P (af (req q))
                         (last (filter (valid_record P (af (req q)) (type q)) answers)))
                       (addr (res q))))"
proof -
  have "json_array_foreach_element answers (on_answer P) (q\<lparr>ok := False\<rparr>) =
          selected P (q\<lparr>ok := False\<rparr>) answers"
    using fold_on_answer [OF assms(1), of "q\<lparr>ok := False\<rparr>" answers] assms(2)
    by (simp add: foreach_fold)
  then show ?thesis
    by (simp add: select_answer_def selected_def Let_def)
qed

lemma last_filter_nth:
  assumes "i < length xs" and "V (xs ! i)" and "\<forall>k. i < k \<and> k < length xs \<longrightarrow> \<not> V (xs ! k)"
  shows "last (filter V xs) = xs ! i"
proof -
  have split: "xs = take i xs @ xs ! i # drop (Suc i) xs"
    using assms(1) by (simp add: id_take_nth_drop)
  have "\<forall>x \<in> set (drop (Suc i) xs). \<not> V x"
  proof
    fix x assume "x \<in> set (drop (Suc i) xs)"
    then obtain n where n: "n < length (drop (Suc i) xs)" "x = drop (Suc i) xs ! n"
      by (auto simp: in_set_conv_nth)
    then have "x = xs ! (Suc i + n)" and "Suc i + n < length xs" by auto
    then show "\<not> V x" using assms(3) by simp
  qed
  then have "filter V (drop (Suc i) xs) = []" by (simp add: filter_empty_conv)
  then have "filter V xs = filter V (take i xs) @ [xs ! i]"
    using assms(2) by (subst split) simp
  then show ?thesis by simp
qed

subsection \<open>\<^verbatim>\<open>on_res\<close>, \<^verbatim>\<open>on_req\<close> and the session\<close>

lemma scan_connection:
  "connection (json_array_foreach_element xs (on_answer P) q) = connection q"
  by (simp add: foreach_fold fold_on_answer_keeps)

lemma on_res_answers:
  assumes "json_object_get_array_member (Some members) ''Answer'' = Some answers"
  shows "on_res P q (Send_stream status (Loaded (Some (JObject members)))) =
           (case select_answer P q answers of
              None \<Rightarrow> ([Object_unref (connection q), Free_query], None)
            | Some bytes \<Rightarrow>
                ([Write_all_async (connection q) bytes],
                 Some (json_array_foreach_element answers (on_answer P) (q\<lparr>ok := False\<rparr>))))"
  using assms scan_connection [of answers P "q\<lparr>ok := False\<rparr>"]
  by (simp add: on_res_def on_res_fail_def select_answer_def Let_def)

lemma on_res_no_answers:
  assumes "\<not> (\<exists>members answers. root_node = Some (JObject members) \<and>
                map_of members ''Answer'' = Some (JArray answers))"
  shows "on_res P q (Send_stream status (Loaded root_node)) =
           ([Object_unref (connection q), Free_query], None)"
proof (cases "json_node_get_object root_node")
  case None
  then show ?thesis by (simp add: on_res_def on_res_fail_def)
next
  case (Some members)
  then have root: "root_node = Some (JObject members)"
    by (cases root_node rule: json_node_get_object.cases) simp_all
  with assms have "\<forall>answers. map_of members ''Answer'' \<noteq> Some (JArray answers)" by blast
  then have "json_object_get_array_member (Some members) ''Answer'' = None"
    by (auto split: option.splits json.splits)
  with root show ?thesis by (simp add: on_res_def on_res_fail_def)
qed

lemma on_res_not_loaded:
  "on_res P q Send_error = ([Object_unref (connection q), Free_query], None)"
  "on_res P q (Send_stream status Load_error) = ([Object_unref (connection q), Free_query], None)"
  by (simp_all add: on_res_def on_res_fail_def)

text \<open>\<^verbatim>\<open>on_res\<close> either releases the query, or starts the write of the selected buffer.\<close>

lemma on_res_cases:
  "on_res P q sr = ([Object_unref (connection q), Free_query], None) \<or>
   (\<exists>answers bytes q'. select_answer P q answers = Some bytes \<and> connection q' = connection q \<and>
      on_res P q sr = ([Write_all_async (connection q) bytes], Some q'))"
proof (cases sr)
  case Send_error
  then show ?thesis by (simp add: on_res_not_loaded)
next
  case (Send_stream status in_stream)
  show ?thesis
  proof (cases in_stream)
    case Load_error
    with Send_stream show ?thesis by (simp add: on_res_not_loaded)
  next
    case (Loaded root_node)
    show ?thesis
    proof (cases "\<exists>members answers. root_node = Some (JObject members) \<and>
                map_of members ''Answer'' = Some (JArray answers)")
      case False
      then show ?thesis using Send_stream Loaded on_res_no_answers [of root_node P q status] by simp
    next
      case True
      then obtain members answers where r: "root_node = Some (JObject members)"
        and a: "map_of members ''Answer'' = Some (JArray answers)" by blast
      from a have m: "json_object_get_array_member (Some members) ''Answer'' = Some answers"
        by simp
      show ?thesis
      proof (cases "select_answer P q answers")
        case None
        then show ?thesis using Send_stream Loaded r on_res_answers [OF m, of P q status] by simp
      next
        case (Some bytes)
        then show ?thesis
          using Send_stream Loaded r on_res_answers [OF m, of P q status]
            scan_connection [of answers P "q\<lparr>ok := False\<rparr>"]
          by auto
      qed
    qed
  qed
qed

lemma c_str_terminated:
  "CHR 0x00 \<notin> set host \<Longrightarrow> c_str (host @ CHR 0x00 # padding) = host"
  by (induction host) (auto simp: c_str_def)

lemma on_req_cases:
  "on_req h q finished len =
     (if finished \<and> len = sizeof_req h \<and> (af (req q) = AF_INET \<or> af (req q) = AF_INET6)
      then ([Soup_send_async ''GET''
               (''https://'' @ NSS_TLS_RESOLVER h @ ''/dns-query?ct=application/dns-json&name=''
                  @ c_str (name (req q)) @ (if af (req q) = AF_INET then ''&type=A'' else ''&type=AAAA''))],
            Some (q\<lparr>type := (if af (req q) = AF_INET then 1 else 28)\<rparr>))
      else ([Object_unref (connection q), Free_query], None))"
  by (simp add: on_req_def on_req_fail_def AF_INET_def AF_INET6_def)

text \<open>The read hands \<^verbatim>\<open>on_req\<close> a whole request exactly when enough bytes arrive.\<close>

lemma read_all_whole:
  "fst (g_input_stream_read_all count inc) \<and> snd (g_input_stream_read_all count inc) = count
     \<longleftrightarrow> count \<le> arrived inc"
  by (auto simp: g_input_stream_read_all_def)

lemma left_in_memory_Some: "left_in_memory q (Some q') = q'"
  by (simp add: left_in_memory_def)

text \<open>After \<^verbatim>\<open>on_res\<close>, \<^verbatim>\<open>on_done\<close> runs exactly when the query was not freed.\<close>

lemma on_res_then_done:
  "(case on_res P q sr of
      (ops, r) \<Rightarrow> ops @ concat (map (after_write (left_in_memory q r) wr) ops)) =
   (case on_res P q sr of
      (ops2, None) \<Rightarrow> ops2
    | (ops2, Some query3) \<Rightarrow> ops2 @ [Object_unref (connection query3), Free_query])"
  using on_res_cases [of P q sr]
  by (auto simp: after_write_def left_in_memory_def on_done_def)

lemma session_cases:
  "session h P conn inc sr wr =
     session_start h conn @
     (if sizeof_req h \<le> arrived inc \<and> (af (buffer inc) = AF_INET \<or> af (buffer inc) = AF_INET6)
      then Soup_send_async ''GET''
             (''https://'' @ NSS_TLS_RESOLVER h @ ''/dns-query?ct=application/dns-json&name=''
                @ c_str (name (buffer inc))
                @ (if af (buffer inc) = AF_INET then ''&type=A'' else ''&type=AAAA'')) #
           (case on_res P ((received h conn inc)\<lparr>type := (if af (buffer inc) = AF_INET then 1 else 28)\<rparr>) sr of
              (ops2, None) \<Rightarrow> ops2
            | (ops2, Some query3) \<Rightarrow> ops2 @ [Object_unref (connection query3), Free_query])
      else [Object_unref conn, Free_query])"
proof -
  obtain finished len where r: "g_input_stream_read_all (sizeof_req h) inc = (finished, len)"
    by (cases "g_input_stream_read_all (sizeof_req h) inc")
  with read_all_whole [of "sizeof_req h" inc]
  have w: "finished \<and> len = sizeof_req h \<longleftrightarrow> sizeof_req h \<le> arrived inc" by simp
  have start: "session h P conn inc sr wr =
     session_start h conn @
     (case on_req h (received h conn inc) finished len of
        (ops1, r1) \<Rightarrow>
          ops1 @ concat (map (after_send P (left_in_memory (received h conn inc) r1) sr wr) ops1))"
    using r
    by (simp add: session_def on_incoming_def after_read_def session_start_def received_def Let_def)
  show ?thesis
  proof (cases "sizeof_req h \<le> arrived inc \<and> (af (buffer inc) = AF_INET \<or> af (buffer inc) = AF_INET6)")
    case False
    then have "on_req h (received h conn inc) finished len = ([Object_unref conn, Free_query], None)"
      using w by (auto simp: on_req_cases received_def)
    then show ?thesis
      using False by (simp add: start after_send_def)
  next
    case True
    let ?q = "(received h conn inc)\<lparr>type := (if af (buffer inc) = AF_INET then 1 else 28)\<rparr>"
    let ?url = "''https://'' @ NSS_TLS_RESOLVER h @ ''/dns-query?ct=application/dns-json&name=''
             @ c_str (name (buffer inc))
             @ (if af (buffer inc) = AF_INET then ''&type=A'' else ''&type=AAAA'')"
    have req: "on_req h (received h conn inc) finished len = ([Soup_send_async ''GET'' ?url], Some ?q)"
      using True w by (auto simp: on_req_cases received_def)
    have "session h P conn inc sr wr =
        session_start h conn @ Soup_send_async ''GET'' ?url #
        (case on_res P ?q sr of
           (ops, r) \<Rightarrow> ops @ concat (map (after_write (left_in_memory ?q r) wr) ops))"
      unfolding start req by (simp add: after_send_def left_in_memory_Some)
    then have "session h P conn inc sr wr =
        session_start h conn @ Soup_send_async ''GET'' ?url #
        (case on_res P ?q sr of
           (ops2, None) \<Rightarrow> ops2
         | (ops2, Some query3) \<Rightarrow> ops2 @ [Object_unref (connection query3), Free_query])"
      unfolding on_res_then_done .
    then show ?thesis
      using True by simp
  qed
qed

text \<open>No callback releases the libsoup session, the message or the response stream.\<close>

lemma libsoup_objects_kept:
  assumes "x = Soup_session \<or> x = Soup_message \<or> x = Response_stream"
  shows "Released x \<notin> set (session_objects h conn inc sr)"
proof -
  have req: "Released x \<notin> set (on_req_objects h q finished len)" for q finished len
    using assms by (auto simp: on_req_objects_def)
  have res: "Released x \<notin> set (on_res_objects sr)"
    using assms by (auto simp: on_res_objects_def split: send_result.splits body.splits)
  have send: "Released x \<notin> set (objects_after_send sr op)" for op
    using res by (cases op) (simp_all add: objects_after_send_def)
  have read: "Released x \<notin> set (objects_after_read h q inc sr op)" for q op
    using req send by (cases op) (auto simp: objects_after_read_def Let_def split: prod.splits)
  show ?thesis
    using read by (auto simp: session_objects_def split: prod.splits)
qed

subsection \<open>The example environment\<close>

lemma example_inet_pton_spec: "inet_pton_spec example_inet_pton"
  by (simp add: inet_pton_spec_def example_inet_pton_def address_length_def AF_INET_def AF_INET6_def)

lemmas example_defs =
  example_inet_pton_def example_h_def example_req_def example_query_def example_record_def
  g_new0_query_def sizeof_res_def AF_INET_def AF_INET6_def
  valid_record_def record_type_def record_text_def record_data_def record_address_def
  address_length_def store_def

lemmas session_defs =
  session_def after_read_def after_send_def after_write_def left_in_memory_def Let_def
  on_incoming_def g_input_stream_read_all_def
  on_req_def on_req_fail_def on_res_def on_res_fail_def on_done_def
  on_answer_def json_array_foreach_element_def c_str_def example_incoming_def example_response_def

lemma example_family:
  "af (req example_query) = AF_INET \<or> af (req example_query) = AF_INET6"
  by (simp add: example_defs)

text \<open>
  The session of a peer that sends at least the 20 bytes of the request, when the
  resolver's response, of any status, carries one A record.
\<close>

lemma example_trace:
  "20 \<le> n \<Longrightarrow>
   session example_h example_inet_pton 7 (example_incoming\<lparr>arrived := n\<rparr>)
     (example_response status [example_record 1 (JString ''93.184.216.34'')]) wr =
   [Socket_set_timeout 7 5, Object_ref 7, Read_all_async 7 20,
    Soup_send_async ''GET''
      ''https://dns.example.net/dns-query?ct=application/dns-json&name=example.com&type=A'',
    Write_all_async 7 ([93, 184, 216, 34] @ replicate 12 0),
    Object_unref 7, Free_query]"
  by (simp add: session_defs example_defs)

lemma example_trace_send_error:
  "session example_h example_inet_pton 7 example_incoming Send_error wr =
   [Socket_set_timeout 7 5, Object_ref 7, Read_all_async 7 20,
    Soup_send_async ''GET''
      ''https://dns.example.net/dns-query?ct=application/dns-json&name=example.com&type=A'',
    Object_unref 7, Free_query]"
  by (simp add: session_defs example_defs)

section \<open>The claims\<close>

text \<open>
  C1. For every answer array with two or more records of the wanted type whose data
  parse as addresses of the requested family, the Answer Selector returns the address of
  the last such record in array order, not of the first: the response buffer starts with
  that address (and keeps its earlier bytes behind it).
\<close>

theorem last_match_wins:
  assumes "inet_pton_spec P" and "af (req q) = AF_INET \<or> af (req q) = AF_INET6"
    and "2 \<le> length (filter (valid_record P (af (req q)) (type q)) answers)"
  shows "select_answer P q answers =
           Some (store (record_address P (af (req q))
                   (last (filter (valid_record P (af (req q)) (type q)) answers)))
                 (addr (res q)))
         \<and> map_option (take (address_length (af (req q)))) (select_answer P q answers) =
           Some (record_address P (af (req q))
                   (last (filter (valid_record P (af (req q)) (type q)) answers)))"
proof -
  let ?valid = "filter (valid_record P (af (req q)) (type q)) answers"
  from assms(3) have ne: "?valid \<noteq> []" by auto
  then have "last ?valid \<in> set ?valid" by (rule last_in_set)
  then have "valid_record P (af (req q)) (type q) (last ?valid)" by simp
  then have len: "length (record_address P (af (req q)) (last ?valid)) = address_length (af (req q))"
    using valid_record_length [OF assms(1) assms(2)] by blast
  have sel: "select_answer P q answers =
          Some (store (record_address P (af (req q)) (last ?valid)) (addr (res q)))"
    using ne by (simp add: select_answer_selected [OF assms(1) assms(2)])
  show ?thesis
    using sel take_store [of "record_address P (af (req q)) (last ?valid)" "addr (res q)"] len
    by simp
qed

text \<open>
  Two A records with different addresses around a CNAME record: the second address is
  selected.
\<close>

theorem last_match_wins_witness:
  "select_answer example_inet_pton example_query
     [example_record 1 (JString ''93.184.216.34''),
      example_record 5 (JString ''www.example.com.''),
      example_record 1 (JString ''10.0.0.7'')]
   = Some ([10, 0, 0, 7] @ replicate 12 0)"
proof -
  let ?answers = "[example_record 1 (JString ''93.184.216.34''),
      example_record 5 (JString ''www.example.com.''),
      example_record 1 (JString ''10.0.0.7'')]"
  have two: "2 \<le> length (filter (valid_record example_inet_pton (af (req example_query))
                 (type example_query)) ?answers)"
    by (simp add: example_defs)
  show ?thesis
    using last_match_wins [OF example_inet_pton_spec example_family two]
    by (simp add: example_defs)
qed

text \<open>
  C2. When a record of the wanted type parses as an address and a later record of the
  same type does not, the later record changes nothing: the selection is the address of
  the last record that parses, which is the earlier one when no record after it parses.
  The result is NotFound only if no record of the wanted type parses.
\<close>

theorem failed_parse_keeps_selection:
  assumes "inet_pton_spec P" and "af (req q) = AF_INET \<or> af (req q) = AF_INET6"
    and "i < j" and "j < length answers"
    and "valid_record P (af (req q)) (type q) (answers ! i)"
    and "record_type (answers ! j) = Some (type q)"
    and "\<not> valid_record P (af (req q)) (type q) (answers ! j)"
  shows "(\<forall>q'. af (req q') = af (req q) \<and> type q' = type q \<longrightarrow>
            on_answer P j (answers ! j) q' = q')
         \<and> select_answer P q answers =
           Some (store (record_address P (af (req q))
                   (last (filter (valid_record P (af (req q)) (type q)) answers)))
                 (addr (res q)))
         \<and> ((\<forall>k. i < k \<and> k < length answers \<longrightarrow> \<not> valid_record P (af (req q)) (type q) (answers ! k)) \<longrightarrow>
              select_answer P q answers =
                Some (store (record_address P (af (req q)) (answers ! i)) (addr (res q))))
         \<and> (\<forall>answers'. select_answer P q answers' = None \<longrightarrow>
              filter (valid_record P (af (req q)) (type q)) answers' = [])"
proof -
  let ?V = "valid_record P (af (req q)) (type q)"
  have skip: "\<forall>q'. af (req q') = af (req q) \<and> type q' = type q \<longrightarrow>
            on_answer P j (answers ! j) q' = q'"
  proof (intro allI impI)
    fix q' :: nss_tls_query
    assume same: "af (req q') = af (req q) \<and> type q' = type q"
    then show "on_answer P j (answers ! j) q' = q'"
      using on_answer_not_valid [OF assms(1), of q' "answers ! j" j] assms(2,7) by simp
  qed
  have i: "i < length answers" using assms(3,4) by simp
  then have "answers ! i \<in> set answers" by simp
  with assms(5) have ne: "filter ?V answers \<noteq> []"
    by (auto simp: filter_empty_conv)
  have sel: "select_answer P q answers =
          Some (store (record_address P (af (req q)) (last (filter ?V answers))) (addr (res q)))"
    using ne by (simp add: select_answer_selected [OF assms(1) assms(2)])
  have "\<forall>k. i < k \<and> k < length answers \<longrightarrow> \<not> ?V (answers ! k) \<Longrightarrow>
          last (filter ?V answers) = answers ! i"
    using last_filter_nth [OF i, of ?V] assms(5) by blast
  moreover have "\<forall>answers'. select_answer P q answers' = None \<longrightarrow> filter ?V answers' = []"
    by (simp add: select_answer_selected [OF assms(1) assms(2)])
  ultimately show ?thesis using sel skip by auto
qed

text \<open>An A record with an address, then an A record whose data is not an address.\<close>

theorem failed_parse_keeps_selection_witness:
  "select_answer example_inet_pton example_query
     [example_record 1 (JString ''93.184.216.34''), example_record 1 (JString ''93.184.216'')]
   = Some ([93, 184, 216, 34] @ replicate 12 0)
   \<and> on_answer example_inet_pton 1 (example_record 1 (JString ''93.184.216'')) example_query
     = example_query"
proof -
  let ?answers = "[example_record 1 (JString ''93.184.216.34''),
                   example_record 1 (JString ''93.184.216'')]"
  have ij: "(0::nat) < 1" "1 < length ?answers" by simp_all
  have v: "valid_record example_inet_pton (af (req example_query)) (type example_query) (?answers ! 0)"
    by (simp add: example_defs)
  have t: "record_type (?answers ! 1) = Some (type example_query)"
    by (simp add: example_defs)
  have n: "\<not> valid_record example_inet_pton (af (req example_query)) (type example_query) (?answers ! 1)"
    by (simp add: example_defs)
  show ?thesis
    using failed_parse_keeps_selection [OF example_inet_pton_spec example_family ij v t n]
    by (simp add: example_defs)
qed

text \<open>
  C3. When the answer array is empty, has no record of the wanted type, or every record
  of the wanted type fails address parsing, the Answer Selector yields NotFound and
  \<^verbatim>\<open>on_res\<close> only releases the connection and the query: no write is started. (So a write
  is started only when some record of the wanted type parsed.)
\<close>

theorem failed_resolution_writes_nothing:
  assumes "inet_pton_spec P" and "af (req q) = AF_INET \<or> af (req q) = AF_INET6"
    and "json_object_get_array_member (Some members) ''Answer'' = Some answers"
    and "answers = [] \<or>
         (\<forall>node \<in> set answers. record_type node \<noteq> Some (type q)) \<or>
         (\<forall>node \<in> set answers. record_type node = Some (type q) \<longrightarrow>
            \<not> valid_record P (af (req q)) (type q) node)"
  shows "select_answer P q answers = None
         \<and> on_res P q (Send_stream status (Loaded (Some (JObject members)))) =
             ([Object_unref (connection q), Free_query], None)"
proof -
  have "\<forall>node \<in> set answers. \<not> valid_record P (af (req q)) (type q) node"
    using assms(4) by (auto simp: valid_record_def)
  then have "filter (valid_record P (af (req q)) (type q)) answers = []"
    by (simp add: filter_empty_conv)
  then have "select_answer P q answers = None"
    by (simp add: select_answer_selected [OF assms(1) assms(2)])
  then show ?thesis
    using on_res_answers [OF assms(3), of P q status] by simp
qed

text \<open>A CNAME record and an A record whose data is not an address.\<close>

theorem failed_resolution_writes_nothing_witness:
  "on_res example_inet_pton example_query
     (example_response 200 [example_record 5 (JString ''www.example.com.''),
                            example_record 1 (JString ''256.1.1.1'')])
   = ([Object_unref 7, Free_query], None)"
proof -
  let ?answers = "[example_record 5 (JString ''www.example.com.''),
                   example_record 1 (JString ''256.1.1.1'')]"
  have m: "json_object_get_array_member (Some [(''Status'', JInt 0), (''Answer'', JArray ?answers)])
             ''Answer'' = Some ?answers"
    by simp
  have f: "?answers = [] \<or>
         (\<forall>node \<in> set ?answers. record_type node \<noteq> Some (type example_query)) \<or>
         (\<forall>node \<in> set ?answers. record_type node = Some (type example_query) \<longrightarrow>
            \<not> valid_record example_inet_pton (af (req example_query)) (type example_query) node)"
    by (simp add: example_defs)
  show ?thesis
    using failed_resolution_writes_nothing [OF example_inet_pton_spec example_family m f, of 200]
    by (simp add: example_response_def example_defs)
qed

text \<open>
  C4, as amended. When fewer bytes than the request structure arrive, or the family of
  the request is neither \<^verbatim>\<open>AF_INET\<close> nor \<^verbatim>\<open>AF_INET6\<close>, the session releases the connection
  and the query right after the read: no HTTPS request is sent and nothing is written.
\<close>

theorem short_or_unsupported_request_aborts:
  assumes "arrived inc < sizeof_req h \<or> (af (buffer inc) \<noteq> AF_INET \<and> af (buffer inc) \<noteq> AF_INET6)"
  shows "session h P conn inc sr wr =
           [Socket_set_timeout conn (NSS_TLS_TIMEOUT h), Object_ref conn,
            Read_all_async conn (sizeof_req h), Object_unref conn, Free_query]"
  using assms by (auto simp: session_cases session_start_def)

text \<open>A request one byte short, and a request of family 1 (\<^verbatim>\<open>AF_UNIX\<close>).\<close>

theorem short_or_unsupported_request_aborts_witness:
  "session example_h example_inet_pton 7 (example_incoming\<lparr>arrived := 19\<rparr>)
     (example_response 200 [example_record 1 (JString ''93.184.216.34'')]) True =
   [Socket_set_timeout 7 5, Object_ref 7, Read_all_async 7 20, Object_unref 7, Free_query]
   \<and> session example_h example_inet_pton 7 (example_incoming\<lparr>buffer := example_req\<lparr>af := 1\<rparr>\<rparr>)
     (example_response 200 [example_record 1 (JString ''93.184.216.34'')]) True =
   [Socket_set_timeout 7 5, Object_ref 7, Read_all_async 7 20, Object_unref 7, Free_query]"
proof -
  let ?short = "example_incoming\<lparr>arrived := 19\<rparr>"
  let ?unix = "example_incoming\<lparr>buffer := example_req\<lparr>af := 1\<rparr>\<rparr>"
  have s: "arrived ?short < sizeof_req example_h \<or>
           (af (buffer ?short) \<noteq> AF_INET \<and> af (buffer ?short) \<noteq> AF_INET6)"
    by (simp add: example_incoming_def example_h_def)
  have u: "arrived ?unix < sizeof_req example_h \<or>
           (af (buffer ?unix) \<noteq> AF_INET \<and> af (buffer ?unix) \<noteq> AF_INET6)"
    by (simp add: example_incoming_def example_defs)
  show ?thesis
    using short_or_unsupported_request_aborts [OF s, of example_inet_pton 7]
      short_or_unsupported_request_aborts [OF u, of example_inet_pton 7]
    by (simp add: example_h_def)
qed

text \<open>
  C4 as stated fails for a frame that is too long: the read takes the 20 bytes of the
  request structure and leaves the rest, so a peer that sends 21 bytes is served like one
  that sends 20.
\<close>

theorem long_frame_counterexample:
  "session example_h example_inet_pton 7 (example_incoming\<lparr>arrived := 21\<rparr>)
     (example_response 200 [example_record 1 (JString ''93.184.216.34'')]) True =
   [Socket_set_timeout 7 5, Object_ref 7, Read_all_async 7 20,
    Soup_send_async ''GET''
      ''https://dns.example.net/dns-query?ct=application/dns-json&name=example.com&type=A'',
    Write_all_async 7 ([93, 184, 216, 34] @ replicate 12 0),
    Object_unref 7, Free_query]"
  by (simp add: example_trace)

text \<open>
  C5, as amended. When \<^verbatim>\<open>soup_session_send_finish\<close> yields no stream, \<^verbatim>\<open>on_res\<close> only
  releases the connection and the query: no second request, no write. When it yields a
  stream, \<^verbatim>\<open>on_res\<close> does the same for every status code of the response.
\<close>

theorem transport_failure_aborts:
  "on_res P q Send_error = ([Object_unref (connection q), Free_query], None)
   \<and> on_res P q (Send_stream status in_stream) = on_res P q (Send_stream status' in_stream)"
  by (simp add: on_res_def on_res_fail_def)

text \<open>
  C5 as stated fails: a response of status 500 whose body carries an A record is
  answered with that record's address, unlike a transport failure.
\<close>

theorem non_success_status_counterexample:
  "session example_h example_inet_pton 7 example_incoming
     (example_response 500 [example_record 1 (JString ''93.184.216.34'')]) True =
   [Socket_set_timeout 7 5, Object_ref 7, Read_all_async 7 20,
    Soup_send_async ''GET''
      ''https://dns.example.net/dns-query?ct=application/dns-json&name=example.com&type=A'',
    Write_all_async 7 ([93, 184, 216, 34] @ replicate 12 0),
    Object_unref 7, Free_query]
   \<and> session example_h example_inet_pton 7 example_incoming
     (example_response 500 [example_record 1 (JString ''93.184.216.34'')]) True \<noteq>
     session example_h example_inet_pton 7 example_incoming Send_error True"
proof -
  have served: "session example_h example_inet_pton 7 example_incoming
     (example_response 500 [example_record 1 (JString ''93.184.216.34'')]) True =
   [Socket_set_timeout 7 5, Object_ref 7, Read_all_async 7 20,
    Soup_send_async ''GET''
      ''https://dns.example.net/dns-query?ct=application/dns-json&name=example.com&type=A'',
    Write_all_async 7 ([93, 184, 216, 34] @ replicate 12 0),
    Object_unref 7, Free_query]"
    using example_trace [of 20 500 True] by (simp add: example_incoming_def)
  show ?thesis
    unfolding served example_trace_send_error by simp
qed

text \<open>
  C6. For every request of a supported family whose name buffer holds a NUL-terminated
  host name, \<^verbatim>\<open>on_req\<close> stores the type code of the family (1 for IPv4, 28 for IPv6) and
  sends one GET of \<^verbatim>\<open>https://<resolver>/dns-query?ct=application/dns-json&name=<host>&type=<mnemonic>\<close>,
  with the host name as received and the mnemonic of the family (A, AAAA). Code and
  mnemonic each determine the family.
\<close>

theorem query_builder:
  assumes "af (req q) = af_of f"
    and "name (req q) = host @ CHR 0x00 # padding" and "CHR 0x00 \<notin> set host"
  shows "on_req h q True (sizeof_req h) =
           ([Soup_send_async ''GET'' (doh_url (NSS_TLS_RESOLVER h) host f)],
            Some (q\<lparr>type := dns_type_code f\<rparr>))
         \<and> (\<forall>f'. dns_type_code f' = dns_type_code f \<or> dns_mnemonic f' = dns_mnemonic f \<longrightarrow> f' = f)"
proof -
  have "c_str (name (req q)) = host"
    using assms(2,3) by (simp add: c_str_terminated)
  then have "on_req h q True (sizeof_req h) =
           ([Soup_send_async ''GET'' (doh_url (NSS_TLS_RESOLVER h) host f)],
            Some (q\<lparr>type := dns_type_code f\<rparr>))"
    using assms(1) by (cases f) (simp_all add: on_req_cases doh_url_def AF_INET_def AF_INET6_def)
  moreover have "\<forall>f'. dns_type_code f' = dns_type_code f \<or> dns_mnemonic f' = dns_mnemonic f \<longrightarrow> f' = f"
  proof (intro allI impI)
    fix f' assume "dns_type_code f' = dns_type_code f \<or> dns_mnemonic f' = dns_mnemonic f"
    then show "f' = f" by (cases f; cases f') simp_all
  qed
  ultimately show ?thesis by simp
qed

theorem query_builder_witness:
  "on_req example_h example_query True 20 =
     ([Soup_send_async ''GET''
         ''https://dns.example.net/dns-query?ct=application/dns-json&name=example.com&type=A''],
      Some (example_query\<lparr>type := 1\<rparr>))
   \<and> on_req example_h (example_query\<lparr>req := example_req\<lparr>af := AF_INET6\<rparr>\<rparr>) True 20 =
     ([Soup_send_async ''GET''
         ''https://dns.example.net/dns-query?ct=application/dns-json&name=example.com&type=AAAA''],
      Some (example_query\<lparr>req := example_req\<lparr>af := AF_INET6\<rparr>, type := 28\<rparr>))"
proof -
  let ?q6 = "example_query\<lparr>req := example_req\<lparr>af := AF_INET6\<rparr>\<rparr>"
  have a: "af (req example_query) = af_of IPv4" by (simp add: example_defs)
  have n: "name (req example_query) = ''example.com'' @ CHR 0x00 # replicate 4 (CHR 0x00)"
    by (simp add: example_defs eval_nat_numeral)
  have a6: "af (req ?q6) = af_of IPv6" by simp
  have n6: "name (req ?q6) = ''example.com'' @ CHR 0x00 # replicate 4 (CHR 0x00)"
    by (simp add: example_defs eval_nat_numeral)
  have z: "CHR 0x00 \<notin> set ''example.com''" by simp
  show ?thesis
    using query_builder [OF a n z, of example_h] query_builder [OF a6 n6 z, of example_h]
    by (simp add: doh_url_def example_h_def)
qed

text \<open>
  C7. When the body parses as JSON but its root is not an object, or is an object with
  no member \<^verbatim>\<open>Answer\<close> that is an array, \<^verbatim>\<open>on_res\<close> only releases the connection and the
  query: the session fails and no write is started.
\<close>

theorem missing_answer_is_failure:
  assumes "\<not> (\<exists>members answers. root_node = Some (JObject members) \<and>
                map_of members ''Answer'' = Some (JArray answers))"
  shows "on_res P q (Send_stream status (Loaded root_node)) =
           ([Object_unref (connection q), Free_query], None)"
  using assms by (rule on_res_no_answers)

text \<open>An object without \<^verbatim>\<open>Answer\<close>, and a root that is an array.\<close>

theorem missing_answer_is_failure_witness:
  "on_res example_inet_pton example_query
     (Send_stream 200 (Loaded (Some (JObject [(''Status'', JInt 3), (''Question'', JArray [])]))))
   = ([Object_unref 7, Free_query], None)
   \<and> on_res example_inet_pton example_query
     (Send_stream 200 (Loaded (Some (JArray [example_record 1 (JString ''93.184.216.34'')]))))
   = ([Object_unref 7, Free_query], None)"
proof -
  have a: "\<not> (\<exists>members answers.
             Some (JObject [(''Status'', JInt 3), (''Question'', JArray [])]) = Some (JObject members) \<and>
             map_of members ''Answer'' = Some (JArray answers))"
    by simp
  have b: "\<not> (\<exists>members answers.
             Some (JArray [example_record 1 (JString ''93.184.216.34'')]) = Some (JObject members) \<and>
             map_of members ''Answer'' = Some (JArray answers))"
    by simp
  show ?thesis
    using missing_answer_is_failure [OF a, of example_inet_pton example_query 200]
      missing_answer_is_failure [OF b, of example_inet_pton example_query 200]
    by (simp add: example_defs)
qed




text \<open>
  C9. A record with no \<^verbatim>\<open>type\<close> member, or of the wanted type with no \<^verbatim>\<open>data\<close> member or
  with \<^verbatim>\<open>data\<close> that is not a string, leaves the query as it is (address and \<open>ok\<close>
  included), and the scan goes on as if the record were not in the array.
\<close>

theorem malformed_record_skipped:
  assumes "record_type node = None \<or>
           (record_type node = Some (type q) \<and>
            (record_data node = None \<or>
             (\<exists>d. record_data node = Some d \<and> json_node_get_string d = None)))"
  shows "on_answer P i node q = q
         \<and> (\<forall>before rest.
              json_array_foreach_element (before @ node # rest) (on_answer P) q =
              json_array_foreach_element (before @ rest) (on_answer P) q)"
proof -
  have skip: "on_answer P 0 node q' = q'" if "type q' = type q" for q'
  proof -
    from assms have "record_type node \<noteq> Some (type q') \<or> record_text node = None"
      using that by (auto simp: record_text_def split: json.splits)
    then show ?thesis by (auto simp: on_answer_alt)
  qed
  have "json_array_foreach_element (before @ node # rest) (on_answer P) q =
        json_array_foreach_element (before @ rest) (on_answer P) q" for before rest
    using skip [of "fold (on_answer P 0) before q"] fold_on_answer_keeps [of P before q]
    by (simp add: foreach_fold)
  then show ?thesis
    using skip [of q] on_answer_index [of P i node q] by simp
qed

text \<open>An A record with an address, then an A record whose data is a number.\<close>

theorem malformed_record_skipped_witness:
  "json_array_foreach_element
     [example_record 1 (JString ''93.184.216.34''), example_record 1 (JInt 7)]
     (on_answer example_inet_pton) example_query
   = json_array_foreach_element [example_record 1 (JString ''93.184.216.34'')]
       (on_answer example_inet_pton) example_query
   \<and> on_answer example_inet_pton 1 (example_record 1 (JInt 7)) example_query = example_query"
proof -
  have m: "record_type (example_record 1 (JInt 7)) = None \<or>
           (record_type (example_record 1 (JInt 7)) = Some (type example_query) \<and>
            (record_data (example_record 1 (JInt 7)) = None \<or>
             (\<exists>d. record_data (example_record 1 (JInt 7)) = Some d \<and> json_node_get_string d = None)))"
    by (simp add: example_defs)
  show ?thesis
    using malformed_record_skipped [OF m, of example_inet_pton 1]
    by (metis append_Cons append_Nil)
qed

text \<open>
  C10. In a session for an IPv4 request, every response written has the size of the
  response structure and is zero after its first four bytes.
\<close>

theorem ipv4_tail_is_zero:
  assumes "inet_pton_spec P" and "af (buffer inc) = AF_INET"
    and "Write_all_async c bytes \<in> set (session h P conn inc sr wr)"
  shows "length bytes = sizeof_res \<and> drop 4 bytes = replicate (sizeof_res - 4) 0"
proof -
  let ?q = "(received h conn inc)\<lparr>type := 1\<rparr>"
  have trace: "session h P conn inc sr wr =
      session_start h conn @
      Soup_send_async ''GET''
        (''https://'' @ NSS_TLS_RESOLVER h @ ''/dns-query?ct=application/dns-json&name=''
           @ c_str (name (buffer inc)) @ ''&type=A'') #
      (case on_res P ?q sr of
         (ops2, None) \<Rightarrow> ops2
       | (ops2, Some query3) \<Rightarrow> ops2 @ [Object_unref (connection query3), Free_query])"
  proof (rule ccontr)
    assume "\<not> ?thesis"
    then have "session h P conn inc sr wr = session_start h conn @ [Object_unref conn, Free_query]"
      using assms(2) by (simp add: session_cases split: if_splits)
    with assms(3) show False by (simp add: session_start_def)
  qed
  have fam: "af (req ?q) = AF_INET \<or> af (req ?q) = AF_INET6"
    using assms(2) by (simp add: received_def)
  from on_res_cases [of P ?q sr] obtain answers where sel: "select_answer P ?q answers = Some bytes"
  proof
    assume "on_res P ?q sr = ([Object_unref (connection ?q), Free_query], None)"
    with trace assms(3) have False by (simp add: session_start_def)
    then show ?thesis ..
  next
    assume "\<exists>answers bytes q'. select_answer P ?q answers = Some bytes \<and>
              connection q' = connection ?q \<and>
              on_res P ?q sr = ([Write_all_async (connection ?q) bytes], Some q')"
    then obtain answers b q' where b: "select_answer P ?q answers = Some b"
      and "on_res P ?q sr = ([Write_all_async (connection ?q) b], Some q')"
      by blast
    with trace assms(3) have "bytes = b" by (simp add: session_start_def)
    with b that show ?thesis by simp
  qed
  let ?valid = "filter (valid_record P (af (req ?q)) (type ?q)) answers"
  from sel have ne: "?valid \<noteq> []"
    and bytes: "bytes = store (record_address P (af (req ?q)) (last ?valid)) (addr (res ?q))"
    by (auto simp: select_answer_selected [OF assms(1) fam] split: if_splits)
  from ne have "last ?valid \<in> set ?valid" by (rule last_in_set)
  then have "valid_record P (af (req ?q)) (type ?q) (last ?valid)" by simp
  then have "length (record_address P (af (req ?q)) (last ?valid)) = address_length (af (req ?q))"
    using valid_record_length [OF assms(1) fam] by blast
  then have len: "length (record_address P (af (req ?q)) (last ?valid)) = 4"
    using assms(2) by (simp add: received_def address_length_def)
  have zero: "addr (res (received h conn inc)) = replicate sizeof_res 0"
    by (simp add: received_def g_new0_query_def)
  show ?thesis
    using len by (simp add: bytes zero store_def sizeof_res_def)
qed

theorem ipv4_tail_is_zero_witness:
  "Write_all_async 7 ([93, 184, 216, 34] @ replicate 12 0) \<in>
     set (session example_h example_inet_pton 7 example_incoming
            (example_response 200 [example_record 1 (JString ''93.184.216.34'')]) True)
   \<and> drop 4 ([93, 184, 216, 34] @ replicate 12 (0::byte)) = replicate (sizeof_res - 4) 0"
proof -
  have a: "af (buffer example_incoming) = AF_INET" by (simp add: example_incoming_def example_defs)
  have w: "Write_all_async 7 ([93, 184, 216, 34] @ replicate 12 0) \<in>
     set (session example_h example_inet_pton 7 example_incoming
            (example_response 200 [example_record 1 (JString ''93.184.216.34'')]) True)"
    using example_trace [of 20 200 True] by (simp add: example_incoming_def)
  show ?thesis
    using ipv4_tail_is_zero [OF example_inet_pton_spec a w] w by simp
qed

end
